theory Spec2Isabelle
  imports Main "HOL-Library.AList"
begin

section \<open>Python values and built-ins used by \<open>src/lib/books.py\<close>\<close>

text \<open>
  Exceptions are values: every raise of the source is an \<open>Inl\<close> branch of the model.
  \<open>DiceError\<close> stands for any exception raised by the external dice evaluator
  (\<open>rolldice.roll_dice\<close>), \<open>OSError\<close> for a file that cannot be read and
  \<open>JSONDecodeError\<close> for a file that is not JSON.
\<close>

datatype error = KeyError | AttributeError | ValueError | RuntimeError | OSError | JSONDecodeError | DiceError

text \<open>
  A field of a JSON record that the source tests for truthiness: the key can be absent,
  present with a falsy non-value (\<open>null\<close>), or present with a value.
\<close>

datatype 'a field = Absent | Null | Val 'a

text \<open>
  A JSON scalar as it reaches \<open>Table.roll\<close>: the dice evaluator returns an integer,
  a \<open>forced_roll\<close> is whatever the document holds, an integer or a string.
\<close>

datatype scalar = JInt int | JStr string

fun truthy :: "scalar \<Rightarrow> bool" where
  "truthy (JInt n) = (n \<noteq> 0)"
| "truthy (JStr s) = (s \<noteq> [])"

fun truthy_field :: "('a \<Rightarrow> bool) \<Rightarrow> 'a field \<Rightarrow> bool" where
  "truthy_field t Absent = False"
| "truthy_field t Null = False"
| "truthy_field t (Val v) = t v"

subsection \<open>\<open>str.replace\<close>\<close>

text \<open>
  \<open>s.replace(old, new)\<close>: every non-overlapping occurrence of \<open>old\<close>, scanning from
  the left. With an empty \<open>old\<close> Python inserts \<open>new\<close> before every character and at
  the end. Strings are byte lists here; all patterns of the source are ASCII, and an
  ASCII byte never occurs inside a multi-byte UTF-8 sequence, so replacing on bytes and on
  code points agree.
\<close>

function replace :: "string \<Rightarrow> string \<Rightarrow> string \<Rightarrow> string" where
  "replace old new [] = (if old = [] then new else [])"
| "replace old new (c # cs) =
     (if old = [] then new @ concat (map (\<lambda>x. x # new) (c # cs))
      else if take (length old) (c # cs) = old
        then new @ replace old new (drop (length old) (c # cs))
        else c # replace old new cs)"
  by pat_completeness auto
termination
  by (relation "measure (\<lambda>(old, new, s). length s)") auto

subsection \<open>\<open>str(int)\<close>\<close>

definition digit :: "nat \<Rightarrow> char" where
  "digit d = ''0123456789'' ! d"

function str_nat :: "nat \<Rightarrow> string" where
  "str_nat n = (if n < 10 then [digit n] else str_nat (n div 10) @ [digit (n mod 10)])"
  by pat_completeness auto
termination
  by (relation "measure id") auto

definition str_int :: "int \<Rightarrow> string" where
  "str_int i = (if i < 0 then CHR ''-'' # str_nat (nat (- i)) else str_nat (nat i))"

subsection \<open>\<open>int(str)\<close> and \<open>str.split\<close>\<close>

text \<open>
  \<open>int(s)\<close> on a string: surrounding whitespace is ignored, then an optional sign, then
  decimal digits, where single underscores may stand between digits. Anything else raises
  ValueError (\<open>None\<close> here). Only ASCII strings are modelled: the blanks that are
  ignored are the bytes 9 to 13 and 32, the digits are \<open>0\<close> to \<open>9\<close>.
\<close>

definition is_space :: "char \<Rightarrow> bool" where
  "is_space c = (of_char c \<in> {9::nat, 10, 11, 12, 13, 32})"

definition is_digit :: "char \<Rightarrow> bool" where
  "is_digit c = (48 \<le> (of_char c :: nat) \<and> (of_char c :: nat) \<le> 57)"

definition digit_val :: "char \<Rightarrow> nat" where
  "digit_val c = of_char c - 48"

definition strip :: "string \<Rightarrow> string" where
  "strip s = rev (dropWhile is_space (rev (dropWhile is_space s)))"

fun dec_body :: "nat \<Rightarrow> string \<Rightarrow> nat option" where
  "dec_body acc [] = Some acc"
| "dec_body acc [c] = (if is_digit c then Some (10 * acc + digit_val c) else None)"
| "dec_body acc (c # d # ds) =
     (if is_digit c then dec_body (10 * acc + digit_val c) (d # ds)
      else if c = CHR ''_'' \<and> is_digit d then dec_body (10 * acc + digit_val d) ds
      else None)"

definition py_nat :: "string \<Rightarrow> nat option" where
  "py_nat s = (case s of [] \<Rightarrow> None
     | c # cs \<Rightarrow> if is_digit c then dec_body (digit_val c) cs else None)"

definition py_int :: "string \<Rightarrow> int option" where
  "py_int s = (case strip s of
       [] \<Rightarrow> None
     | c # cs \<Rightarrow>
         if c = CHR ''-'' then map_option (\<lambda>n. - int n) (py_nat cs)
         else if c = CHR ''+'' then map_option int (py_nat cs)
         else map_option int (py_nat (c # cs)))"

text \<open>\<open>s.split(sep)\<close> for a one-character separator: never an empty list.\<close>

fun split_str :: "char \<Rightarrow> string \<Rightarrow> string list" where
  "split_str sep [] = [[]]"
| "split_str sep (c # cs) =
     (if c = sep then [] # split_str sep cs
      else (c # hd (split_str sep cs)) # tl (split_str sep cs))"

section \<open>Pages, groups of pages, tables\<close>

text \<open>
  \<open>range(lo, hi)\<close> is the pair \<open>(lo, hi)\<close>. \<open>x in range(lo, hi)\<close> holds for an
  integer \<open>x\<close> with \<open>lo \<le> x < hi\<close>; for a string \<open>x\<close> Python compares \<open>x\<close> with every
  element, and a string equals no integer.
\<close>

fun in_range :: "scalar \<Rightarrow> int \<times> int \<Rightarrow> bool" where
  "in_range (JInt n) (lo, hi) = (lo \<le> n \<and> n < hi)"
| "in_range (JStr s) (lo, hi) = False"

text \<open>\<open>Page.id_as_range\<close> and \<open>GroupOfPages.id_as_range\<close> (the same body), on the Id.\<close>

definition id_as_range :: "string \<Rightarrow> error + (int \<times> int)" where
  "id_as_range i =
     (let values = split_str CHR ''-'' i in
      if length values = 1 then
        (case py_int i of None \<Rightarrow> Inl ValueError | Some n \<Rightarrow> Inr (n, n + 1))
      else
        (case py_int (values ! 0) of None \<Rightarrow> Inl ValueError
         | Some a \<Rightarrow>
            (case py_int (values ! 1) of None \<Rightarrow> Inl ValueError
             | Some b \<Rightarrow> Inr (a, b + 1))))"

text \<open>
  A slot of a book's \<open>_pages\<close> dictionary holds a page or a \<open>GroupOfPages\<close>, which
  keeps the Id of its first page and the list of its pages.
\<close>

datatype 'p slot = OnePage 'p | GroupOfPages string "'p list"

text \<open>
  A \<open>TableEntry\<close> with the attributes the source reads, and a \<open>Table\<close>. \<open>Table_e\<close>
  is \<open>None\<close> when the record has no \<open>Table\<close> key or a falsy one (\<open>TableEntry.add\<close>
  stores \<open>None\<close> then, and \<open>roll\<close> treats both alike).
\<close>

datatype entry = TableEntry (Id_e: "string option") (Details: "string option")
    (Number: "string field") (Table_e: "table option")
and table = Table (bid: string) (title: string) (pages: "(string \<times> entry slot) list")
    (Die: string) (forced_roll: "scalar field") (rop: string)

section \<open>\<open>TableEntry.result\<close>: resolving the Details template\<close>

text \<open>
  The dice evaluator \<open>rolldice.roll_dice\<close> is external: a parameter that maps an
  expression and the state of the random source to a value and the next state, or fails.
\<close>

type_synonym 's dice = "string \<Rightarrow> 's \<Rightarrow> (int \<times> 's) option"

abbreviation nl :: string where
  "nl \<equiv> [CHR 0x0A]"

text \<open>Lines 221 to 234 of \<open>books.py\<close>: the substitutions for a given count.\<close>

definition substitute :: "int \<Rightarrow> string \<Rightarrow> string" where
  "substitute count details0 =
     (let details =
        (if count = 1 then replace ''#'' ''un'' details0
         else if count > 1 then
           (let d1 = replace ''#a'' (str_int count) details0;
                d2 = replace ''#'' (str_int count) d1;
                d3 = replace ''a$(-es)'' ''es'' d2;
                d4 = replace ''$(es)'' ''es'' d3
            in replace ''$'' ''s'' d4)
         else details0);
        details = replace ''#a'' [] details;
        details = replace ''#'' [] details;
        details = replace ''$'' [] details
      in replace ''  '' '' '' details)"

text \<open>Lines 216 to 219: the count is rolled only for a present, truthy \<open>Number\<close>.\<close>

fun roll_Number :: "'s dice \<Rightarrow> string field \<Rightarrow> 's \<Rightarrow> (int \<times> 's) option" where
  "roll_Number ev (Val die) s = (if die \<noteq> [] then ev die s else Some (0, s))"
| "roll_Number ev Null s = Some (0, s)"
| "roll_Number ev Absent s = Some (0, s)"

definition TableEntry_result :: "'s dice \<Rightarrow> entry \<Rightarrow> 's \<Rightarrow> error + (string \<times> 's)" where
  "TableEntry_result ev e s =
     (case Details e of
        None \<Rightarrow> Inl AttributeError
      | Some details \<Rightarrow>
          (case roll_Number ev (Number e) s of
             None \<Rightarrow> Inl DiceError
           | Some (count, s') \<Rightarrow> Inr (substitute count details, s')))"

section \<open>\<open>Table.find\<close> and \<open>Table.roll\<close>\<close>

fun slot_id_as_range :: "entry slot \<Rightarrow> error + (int \<times> int)" where
  "slot_id_as_range (OnePage p) =
     (case Id_e p of None \<Rightarrow> Inl AttributeError | Some i \<Rightarrow> id_as_range i)"
| "slot_id_as_range (GroupOfPages gid ps) = id_as_range gid"

fun slot_pages :: "'p slot \<Rightarrow> 'p list" where
  "slot_pages (OnePage p) = [p]"
| "slot_pages (GroupOfPages gid ps) = ps"

text \<open>
  The loop of \<open>Table.find\<close> over \<open>self._pages.values()\<close>, in the order of the
  dictionary, with the list \<open>entries\<close> built so far.
\<close>

fun find_loop :: "(string \<times> entry slot) list \<Rightarrow> scalar \<Rightarrow> entry list \<Rightarrow> error + entry list" where
  "find_loop [] rid entries = Inr entries"
| "find_loop ((k, entry) # rest) rid entries =
     (case slot_id_as_range entry of
        Inl e \<Rightarrow> Inl e
      | Inr r \<Rightarrow>
          if in_range rid r then find_loop rest rid (entries @ slot_pages entry)
          else find_loop rest rid entries)"

definition Table_find :: "table \<Rightarrow> scalar \<Rightarrow> error + entry list" where
  "Table_find t rid = find_loop (pages t) rid []"

text \<open>Lines 282 to 284: a present, truthy \<open>forced_roll\<close> replaces the rolled value.\<close>

fun rolled_id :: "scalar field \<Rightarrow> int \<Rightarrow> scalar" where
  "rolled_id (Val v) r = (if truthy v then v else JInt r)"
| "rolled_id Null r = JInt r"
| "rolled_id Absent r = JInt r"

text \<open>What an f-string prints for the rolled id.\<close>

fun str_scalar :: "scalar \<Rightarrow> string" where
  "str_scalar (JInt n) = str_int n"
| "str_scalar (JStr s) = s"

text \<open>Lines 296 to 301: the result operation of the sub-table.\<close>

definition combine :: "string \<Rightarrow> string \<Rightarrow> string \<Rightarrow> string" where
  "combine op cresult sresult =
     (if op = ''replace'' then sresult
      else if op = ''append'' then cresult @ nl @ sresult
      else if op = ''concat'' then cresult @ sresult
      else cresult)"

text \<open>
  \<open>Table.roll\<close>. \<open>roll_entry\<close> is the body of the loop over the matching entries
  (lines 291 to 302): it returns the entry's \<open>cresult\<close> and the lines added to
  \<open>explanation\<close>. \<open>roll_entries\<close> is the loop with its two accumulators (line 303).
  A loaded table is a finite tree, so the recursion into sub-tables ends.
\<close>

function Table_roll :: "'s dice \<Rightarrow> table \<Rightarrow> 's \<Rightarrow> error + ((string \<times> string list) \<times> 's)"
  and roll_entries :: "'s dice \<Rightarrow> entry list \<Rightarrow> string \<times> string list \<Rightarrow> 's
        \<Rightarrow> error + ((string \<times> string list) \<times> 's)"
  and roll_entry :: "'s dice \<Rightarrow> entry \<Rightarrow> 's \<Rightarrow> error + ((string \<times> string list) \<times> 's)"
where
  "Table_roll ev t s =
     (case ev (Die t) s of
        None \<Rightarrow> Inl DiceError
      | Some (r, s1) \<Rightarrow>
          (let rid = rolled_id (forced_roll t) r in
           case Table_find t rid of
             Inl e \<Rightarrow> Inl e
           | Inr entries \<Rightarrow>
               roll_entries ev entries ([], [Die t @ '' -> **'' @ str_scalar rid @ ''**'']) s1))"
| "roll_entries ev [] acc s = Inr (acc, s)"
| "roll_entries ev (entry # entries) acc s =
     (case roll_entry ev entry s of
        Inl e \<Rightarrow> Inl e
      | Inr ((cresult, sexpl), s1) \<Rightarrow>
          roll_entries ev entries (fst acc @ nl @ cresult, snd acc @ sexpl) s1)"
| "roll_entry ev entry s =
     (case TableEntry_result ev entry s of
        Inl e \<Rightarrow> Inl e
      | Inr (cresult, s1) \<Rightarrow>
          (case Table_e entry of
             None \<Rightarrow> Inr ((cresult, []), s1)
           | Some sub \<Rightarrow>
               (case Table_roll ev sub s1 of
                  Inl e \<Rightarrow> Inl e
                | Inr ((sresult, sexpl), s2) \<Rightarrow>
                    if sresult \<noteq> [] then Inr ((combine (rop sub) cresult sresult, sexpl), s2)
                    else Inr ((cresult, []), s2))))"
  by pat_completeness auto
termination
proof -
  have loop: "find_loop ps rid acc = Inr es \<Longrightarrow>
      size_list size es \<le> size_list size acc + size_list (size_prod (\<lambda>x. 0) (size_slot size)) ps"
    for ps rid acc es
  proof (induction ps arbitrary: acc)
    case Nil
    then show ?case by simp
  next
    case (Cons a ps)
    obtain k sl where a: "a = (k, sl)" by (cases a)
    from Cons.prems a obtain r where r: "slot_id_as_range sl = Inr r"
      by (auto split: sum.splits)
    have sl: "size_list size (slot_pages sl) \<le> size_slot size sl"
      by (cases sl) simp_all
    show ?case
    proof (cases "in_range rid r")
      case True
      with Cons.prems a r have "find_loop ps rid (acc @ slot_pages sl) = Inr es" by simp
      from Cons.IH [OF this] sl show ?thesis by (simp add: a size_list_append)
    next
      case False
      with Cons.prems a r have "find_loop ps rid acc = Inr es" by simp
      from Cons.IH [OF this] show ?thesis by (simp add: a)
    qed
  qed
  have found: "Table_find t rid = Inr es \<Longrightarrow> size_list size es < size t" for t rid es
    using loop [of "pages t" rid "[]" es] by (cases t) (simp add: Table_find_def)
  show ?thesis
  proof (relation "measure (\<lambda>x. case x of
            Inl (ev, t, s) \<Rightarrow> 2 * size t
          | Inr (Inl (ev, es, acc, s)) \<Rightarrow> 2 * size_list size es + 1
          | Inr (Inr (ev, e, s)) \<Rightarrow> 2 * size e)", goal_cases)
    case 1
    show ?case by simp
  next
    case (2 ev t s x2 r s1 rid entries)
    then show ?case using found [of t rid entries] by simp
  next
    case (3 ev entry entries acc s)
    show ?case by simp
  next
    case 4
    then show ?case by simp
  next
    case (5 ev entry s x2 cresult s1 sub)
    then show ?case by (cases entry) simp
  qed
qed

declare Table_roll.simps [simp del] roll_entry.simps [simp del]

section \<open>Loading: documents, \<open>Book.load\<close>, \<open>Table.load\<close>, \<open>Library.load\<close>\<close>

text \<open>
  A parsed document, with the keys the source reads; a key of the record can be absent.
  The types of the values are those of the document format. For the \<open>Table\<close> key of a
  page, \<open>Null\<close> stands for any falsy value.
\<close>

datatype book_doc = BookDoc (doc_Id: "string option") (doc_Title: "string option")
    (doc_Type: "int option") (doc_Pages: "page_doc list option") (doc_Die: "string option")
    (doc_forced_roll: "scalar field") (doc_rop: "string option")
and page_doc = PageDoc (page_Id: "string option") (page_Details: "string option")
    (page_Number: "string field") (page_Table: "book_doc field")

datatype book_type = MONSTER_MANUAL | TABLE

definition BookType :: "int \<Rightarrow> error + book_type" where
  "BookType v = (if v = 1 then Inr MONSTER_MANUAL else if v = 2 then Inr TABLE else Inl ValueError)"

text \<open>
  \<open>Page.__init__\<close> copies every key of the record into the object and checks nothing:
  the attributes of a plain \<open>Page\<close> (and of a \<open>MonsterPage\<close>) are the record itself.
\<close>

type_synonym page = page_doc

definition Page_init :: "page_doc \<Rightarrow> error + page" where
  "Page_init json_dict = Inr json_dict"

text \<open>
  Lines 148 to 158 of \<open>Book.load\<close>: the page goes into the dictionary \<open>_pages\<close>
  (an association list in insertion order; storing under a key that exists keeps its
  place). Only KeyError is caught: a page without \<open>Id\<close> raises AttributeError, and so
  does \<open>page0.add(page)\<close>, since \<open>GroupOfPages\<close> defines no method \<open>add\<close>.
\<close>

definition add_to_pages ::
  "('p \<Rightarrow> string option) \<Rightarrow> 'p \<Rightarrow> (string \<times> 'p slot) list \<Rightarrow> error + (string \<times> 'p slot) list" where
  "add_to_pages Id_of page pgs =
     (case Id_of page of
        None \<Rightarrow> Inl AttributeError
      | Some k \<Rightarrow>
          (case map_of pgs k of
             None \<Rightarrow> Inr (AList.update k (OnePage page) pgs)
           | Some (OnePage page0) \<Rightarrow>
               (case Id_of page0 of
                  None \<Rightarrow> Inl AttributeError
                | Some gid \<Rightarrow> Inr (AList.update gid (GroupOfPages gid [page0, page]) pgs))
           | Some (GroupOfPages gid ps) \<Rightarrow> Inl AttributeError))"

text \<open>Lines 135 to 141 of \<open>Book.load\<close>; \<open>None\<close> is a missing or falsy \<open>book\<close>.\<close>

definition Book_header :: "book_doc option \<Rightarrow> error + (string \<times> string \<times> book_type)" where
  "Book_header book =
     (case book of
        None \<Rightarrow> Inl RuntimeError
      | Some b \<Rightarrow>
          (case doc_Id b of None \<Rightarrow> Inl KeyError
           | Some i \<Rightarrow>
              (case doc_Title b of None \<Rightarrow> Inl KeyError
               | Some t \<Rightarrow>
                  (case doc_Type b of None \<Rightarrow> Inl KeyError
                   | Some ty \<Rightarrow>
                      (case BookType ty of Inl e \<Rightarrow> Inl e
                       | Inr bt \<Rightarrow> Inr (i, t, bt))))))"

text \<open>The loop of \<open>Book.load\<close> over \<open>book['Pages']\<close> with \<open>Book.make_page\<close>.\<close>

fun load_pages :: "page_doc list \<Rightarrow> (string \<times> page slot) list \<Rightarrow> error + (string \<times> page slot) list" where
  "load_pages [] pgs = Inr pgs"
| "load_pages (page_dict # rest) pgs =
     (case Page_init page_dict of
        Inl e \<Rightarrow> Inl e
      | Inr page \<Rightarrow>
          (case add_to_pages page_Id page pgs of
             Inl e \<Rightarrow> Inl e
           | Inr pgs' \<Rightarrow> load_pages rest pgs'))"

text \<open>
  \<open>Book.load(book, load_pages)\<close> for a plain \<open>Book\<close> or a \<open>MonsterBook\<close>: the
  header and, when asked, the pages.
\<close>

datatype book_obj = Book (bid_b: string) (title_b: string) (type_b: book_type)
    (pages_b: "(string \<times> page slot) list")

definition Book_load :: "book_doc option \<Rightarrow> bool \<Rightarrow> error + book_obj" where
  "Book_load book with_pages =
     (case Book_header book of
        Inl e \<Rightarrow> Inl e
      | Inr (i, t, bt) \<Rightarrow>
          if \<not> with_pages then Inr (Book i t bt [])
          else
            (case book of
               None \<Rightarrow> Inl RuntimeError
             | Some b \<Rightarrow>
                (case doc_Pages b of
                   None \<Rightarrow> Inl KeyError
                 | Some ds \<Rightarrow>
                    (case load_pages ds [] of
                       Inl e \<Rightarrow> Inl e
                     | Inr pgs \<Rightarrow> Inr (Book i t bt pgs)))))"

text \<open>
  \<open>Table.load\<close> (\<open>Book.load\<close> with the pages, then \<open>Die\<close>, \<open>forced_roll\<close> and
  \<open>rop\<close>), its page loop with \<open>Table.make_page\<close>, and the construction of a
  \<open>TableEntry\<close>, whose \<open>add\<close> builds a \<open>Table\<close> from a truthy \<open>Table\<close> value.
\<close>

fun Table_load :: "book_doc option \<Rightarrow> error + table"
  and load_entries :: "page_doc list \<Rightarrow> (string \<times> entry slot) list \<Rightarrow> error + (string \<times> entry slot) list"
  and TableEntry_init :: "page_doc \<Rightarrow> error + entry"
where
  "Table_load None = Inl RuntimeError"
| "Table_load (Some (BookDoc i t ty ps die fr rp)) =
     (case Book_header (Some (BookDoc i t ty ps die fr rp)) of
        Inl e \<Rightarrow> Inl e
      | Inr (b, ttl, bt) \<Rightarrow>
          (case ps of
             None \<Rightarrow> Inl KeyError
           | Some ds \<Rightarrow>
              (case load_entries ds [] of
                 Inl e \<Rightarrow> Inl e
               | Inr pgs \<Rightarrow>
                  (case die of
                     None \<Rightarrow> Inl KeyError
                   | Some d \<Rightarrow>
                      Inr (Table b ttl pgs d fr
                            (case rp of None \<Rightarrow> ''replace'' | Some r \<Rightarrow> r))))))"
| "load_entries [] pgs = Inr pgs"
| "load_entries (page_dict # rest) pgs =
     (case TableEntry_init page_dict of
        Inl e \<Rightarrow> Inl e
      | Inr page \<Rightarrow>
          (case add_to_pages Id_e page pgs of
             Inl e \<Rightarrow> Inl e
           | Inr pgs' \<Rightarrow> load_entries rest pgs'))"
| "TableEntry_init (PageDoc i d n Absent) = Inr (TableEntry i d n None)"
| "TableEntry_init (PageDoc i d n Null) = Inr (TableEntry i d n None)"
| "TableEntry_init (PageDoc i d n (Val sub)) =
     (case Table_load (Some sub) of
        Inl e \<Rightarrow> Inl e
      | Inr t \<Rightarrow> Inr (TableEntry i d n (Some t)))"











section \<open>Notions used to state the properties of a roll\<close>

text \<open>
  The texts of a list of entries: the \<open>cresult\<close> that the loop of \<open>Table.roll\<close>
  reaches for each entry (after the sub-table, if any), in the order of the list, with the
  random source threaded through as the loop does.
\<close>

fun entry_texts :: "'s dice \<Rightarrow> entry list \<Rightarrow> 's \<Rightarrow> error + (string list \<times> 's)" where
  "entry_texts ev [] s = Inr ([], s)"
| "entry_texts ev (entry # entries) s =
     (case roll_entry ev entry s of
        Inl e \<Rightarrow> Inl e
      | Inr ((cresult, sexpl), s1) \<Rightarrow>
          (case entry_texts ev entries s1 of
             Inl e \<Rightarrow> Inl e
           | Inr (cs, s2) \<Rightarrow> Inr (cresult # cs, s2)))"

text \<open>\<open>sep.join(xs)\<close>: the separator stands between the elements only.\<close>

fun join :: "string \<Rightarrow> string list \<Rightarrow> string" where
  "join sep [] = []"
| "join sep [x] = x"
| "join sep (x # y # ys) = x @ sep @ join sep (y # ys)"

text \<open>
  The test of line 272 on a slot whose range can be computed, and an entry that rolls
  nothing: no truthy \<open>Number\<close> and no sub-table.
\<close>

abbreviation matches :: "scalar \<Rightarrow> entry slot \<Rightarrow> bool" where
  "matches rid sl \<equiv> (case slot_id_as_range sl of Inl e \<Rightarrow> False | Inr r \<Rightarrow> in_range rid r)"

abbreviation static :: "entry \<Rightarrow> bool" where
  "static e \<equiv> \<not> truthy_field (\<lambda>d. d \<noteq> []) (Number e) \<and> Table_e e = None"

text \<open>
  What holds of the dictionary \<open>_pages\<close> throughout a load: no key twice, every page
  under its own Id, and a group under the Id it keeps, with the two pages it was built from.
\<close>

definition keyed :: "('p \<Rightarrow> string option) \<Rightarrow> (string \<times> 'p slot) list \<Rightarrow> bool" where
  "keyed Id_of pgs \<longleftrightarrow>
     distinct (map fst pgs) \<and>
     (\<forall>k sl. map_of pgs k = Some sl \<longrightarrow>
        (\<forall>p\<in>set (slot_pages sl). Id_of p = Some k) \<and>
        (case sl of OnePage p \<Rightarrow> True | GroupOfPages gid ps \<Rightarrow> gid = k \<and> length ps = 2))"

section \<open>Worked examples\<close>

text \<open>
  A dice evaluator for the examples: the outcomes of the rolls are drawn in advance and
  handed out in order; the evaluator fails when none is left.
\<close>

definition tape_dice :: "int list dice" where
  "tape_dice expr s = (case s of [] \<Rightarrow> None | v # rest \<Rightarrow> Some (v, rest))"






text \<open>
  Tables: a table of one entry and a chest whose entry rolls on it, with the result
  operation as a parameter; a table with a forced roll; a table where a second page with the
  Id \<open>1-3\<close> comes after a page with the Id \<open>2\<close>; a table with a forced roll whose
  entry has a \<open>Number\<close>.
\<close>

definition gold_table :: "string \<Rightarrow> table" where
  "gold_table op = Table ''gold'' ''Gold''
     [(''1'', OnePage (TableEntry (Some ''1'') (Some ''Gold: 20gp'') Absent None))]
     ''1d2'' Absent op"

definition chest_entry :: "string \<Rightarrow> entry" where
  "chest_entry op = TableEntry (Some ''1'') (Some ''You find a chest.'') Absent (Some (gold_table op))"

definition chest_table :: "string \<Rightarrow> table" where
  "chest_table op = Table ''chest'' ''Chest'' [(''1'', OnePage (chest_entry op))] ''1d1'' Absent ''replace''"

definition forced_doc :: "scalar \<Rightarrow> book_doc" where
  "forced_doc v = BookDoc (Some ''loot'') (Some ''Loot'') (Some 2)
     (Some [PageDoc (Some ''2'') (Some ''gold'') Absent Absent]) (Some ''1d4'') (Val v) None"

definition forced_table :: "scalar \<Rightarrow> table" where
  "forced_table v = Table ''loot'' ''Loot''
     [(''2'', OnePage (TableEntry (Some ''2'') (Some ''gold'') Absent None))] ''1d4'' (Val v) ''replace''"

definition overlap_doc :: book_doc where
  "overlap_doc = BookDoc (Some ''mix'') (Some ''Mix'') (Some 2)
     (Some [PageDoc (Some ''1-3'') (Some ''a'') Absent Absent,
            PageDoc (Some ''2'') (Some ''b'') Absent Absent,
            PageDoc (Some ''1-3'') (Some ''c'') Absent Absent]) (Some ''1d3'') Absent None"

definition overlap_table :: table where
  "overlap_table = Table ''mix'' ''Mix''
     [(''1-3'', GroupOfPages ''1-3'' [TableEntry (Some ''1-3'') (Some ''a'') Absent None,
                                       TableEntry (Some ''1-3'') (Some ''c'') Absent None]),
      (''2'', OnePage (TableEntry (Some ''2'') (Some ''b'') Absent None))] ''1d3'' Absent ''replace''"

definition goblin_table :: table where
  "goblin_table = Table ''enc'' ''Encounter''
     [(''1'', OnePage (TableEntry (Some ''1'') (Some ''# goblin$'') (Val ''1d2'') None))]
     ''1d4'' (Val (JInt 1)) ''replace''"




section \<open>Properties of the template resolution\<close>

lemma set_replace_subset: "set (replace old new s) \<subseteq> set s \<union> set new"
proof (induction old new s rule: replace.induct)
  case (1 old new)
  then show ?case by auto
next
  case (2 old new c cs)
  show ?case
  proof (cases "old = []")
    case True
    then show ?thesis by auto
  next
    case False
    show ?thesis
    proof (cases "take (length old) (c # cs) = old")
      case True
      have "set (drop (length old) (c # cs)) \<subseteq> set (c # cs)"
        by (rule set_drop_subset)
      with "2.IH"(1) [OF False True] False True show ?thesis
        by auto
    next
      case neq: False
      with "2.IH"(2) [OF False neq] False show ?thesis
        by auto
    qed
  qed
qed

lemma replace_removes_char: "c \<notin> set (replace [c] [] s)"
  by (induction s) simp_all

lemma cleanup_no_markers:
  "CHR ''#'' \<notin> set (replace ''  '' '' '' (replace ''$'' [] (replace ''#'' [] (replace ''#a'' [] d))))"
  "CHR ''$'' \<notin> set (replace ''  '' '' '' (replace ''$'' [] (replace ''#'' [] (replace ''#a'' [] d))))"
proof -
  let ?a = "replace ''#'' [] (replace ''#a'' [] d)"
  have a: "CHR ''#'' \<notin> set ?a" by (rule replace_removes_char)
  have b: "CHR ''$'' \<notin> set (replace ''$'' [] ?a)" by (rule replace_removes_char)
  have c: "CHR ''#'' \<notin> set (replace ''$'' [] ?a)"
    using a set_replace_subset [of "''$''" "[]" ?a] by auto
  show "CHR ''#'' \<notin> set (replace ''  '' '' '' (replace ''$'' [] ?a))"
    using c set_replace_subset [of "''  ''" "'' ''" "replace ''$'' [] ?a"] by auto
  show "CHR ''$'' \<notin> set (replace ''  '' '' '' (replace ''$'' [] ?a))"
    using b set_replace_subset [of "''  ''" "'' ''" "replace ''$'' [] ?a"] by auto
qed

text \<open>
  C5. When the \<open>Number\<close> expression of an entry evaluates to a count greater than 1, the
  resolved text is the \<open>Details\<close> after these replacements, in this order: \<open>#a\<close> by
  the count, \<open>#\<close> by the count, \<open>a$(-es)\<close> by \<open>es\<close>, \<open>$(es)\<close> by \<open>es\<close>, \<open>$\<close> by
  \<open>s\<close>, and then the unconditional removal of \<open>#a\<close>, \<open>#\<close>, \<open>$\<close> and the replacement
  of two spaces by one. In particular \<open>bruix$(es)\<close> with count 2 resolves to
  \<open>bruixes\<close>; a template with \<open>#a\<close> twice, \<open>#\<close> twice and \<open>$\<close> four times
  and the count 3 has the count written at each \<open>#a\<close> and \<open>#\<close> and an \<open>s\<close> at each
  \<open>$\<close>; and with both irregular markers twice, a double space and the count 12, each
  irregular marker gives \<open>es\<close> and no \<open>$\<close> of a marker is turned into \<open>s\<close>.
\<close>

theorem C5_plural_order:
  assumes "Details e = Some d" and "Number e = Val die" and "die \<noteq> []"
    and "ev die s = Some (count, s')" and "count > 1"
  shows "TableEntry_result ev e s =
      Inr (replace ''  '' '' '' (replace ''$'' [] (replace ''#'' [] (replace ''#a'' []
            (replace ''$'' ''s'' (replace ''$(es)'' ''es'' (replace ''a$(-es)'' ''es''
              (replace ''#'' (str_int count) (replace ''#a'' (str_int count) d)))))))), s')
    \<and> (d = ''bruix$(es)'' \<and> count = 2 \<longrightarrow> TableEntry_result ev e s = Inr (''bruixes'', s'))
    \<and> (d = ''#a goblin$, #a orc$, # drac$ i # llop$'' \<and> count = 3 \<longrightarrow>
          TableEntry_result ev e s = Inr (''3 goblins, 3 orcs, 3 dracs i 3 llops'', s'))
    \<and> (d = ''#a bruixa$(-es) i # bruix$(es),  #a fada$(-es) i # peix$(es)'' \<and> count = 12 \<longrightarrow>
          TableEntry_result ev e s = Inr (''12 bruixes i 12 bruixes, 12 fades i 12 peixes'', s'))"
proof -
  have general: "TableEntry_result ev e s = Inr (substitute count d, s')"
    using assms by (simp add: TableEntry_result_def)
  have order: "substitute count d =
      replace ''  '' '' '' (replace ''$'' [] (replace ''#'' [] (replace ''#a'' []
            (replace ''$'' ''s'' (replace ''$(es)'' ''es'' (replace ''a$(-es)'' ''es''
              (replace ''#'' (str_int count) (replace ''#a'' (str_int count) d))))))))"
    using assms(5) by (simp add: substitute_def Let_def)
  have i1: "substitute 2 ''bruix$(es)'' = ''bruixes''"
    by code_simp
  have i2: "substitute 3 ''#a goblin$, #a orc$, # drac$ i # llop$''
      = ''3 goblins, 3 orcs, 3 dracs i 3 llops''"
    by code_simp
  have i3: "substitute 12 ''#a bruixa$(-es) i # bruix$(es),  #a fada$(-es) i # peix$(es)''
      = ''12 bruixes i 12 bruixes, 12 fades i 12 peixes''"
    by code_simp
  show ?thesis
  proof (intro conjI impI)
    from general order show "TableEntry_result ev e s =
      Inr (replace ''  '' '' '' (replace ''$'' [] (replace ''#'' [] (replace ''#a'' []
            (replace ''$'' ''s'' (replace ''$(es)'' ''es'' (replace ''a$(-es)'' ''es''
              (replace ''#'' (str_int count) (replace ''#a'' (str_int count) d)))))))), s')"
      by (simp only:)
  next
    assume "d = ''bruix$(es)'' \<and> count = 2"
    with general i1 show "TableEntry_result ev e s = Inr (''bruixes'', s')"
      by (simp only:)
  next
    assume "d = ''#a goblin$, #a orc$, # drac$ i # llop$'' \<and> count = 3"
    with general i2 show "TableEntry_result ev e s = Inr (''3 goblins, 3 orcs, 3 dracs i 3 llops'', s')"
      by (simp only:)
  next
    assume "d = ''#a bruixa$(-es) i # bruix$(es),  #a fada$(-es) i # peix$(es)'' \<and> count = 12"
    with general i3
    show "TableEntry_result ev e s = Inr (''12 bruixes i 12 bruixes, 12 fades i 12 peixes'', s')"
      by (simp only:)
  qed
qed

text \<open>
  The three entries with \<open>Number\<close> \<open>1d4\<close>, \<open>1d6\<close> and \<open>3d6\<close>, the rolls giving 2,
  3 and 12: every hypothesis of C5 holds and the texts are as stated.
\<close>

theorem C5_plural_order_witness:
  "tape_dice ''1d4'' [2, 4] = Some (2, [4]) \<and> (2::int) > 1
   \<and> TableEntry_result tape_dice (TableEntry (Some ''3'') (Some ''bruix$(es)'') (Val ''1d4'') None) [2, 4]
       = Inr (''bruixes'', [4])
   \<and> tape_dice ''1d6'' [3] = Some (3, []) \<and> (3::int) > 1
   \<and> TableEntry_result tape_dice
        (TableEntry (Some ''1'') (Some ''#a goblin$, #a orc$, # drac$ i # llop$'') (Val ''1d6'') None) [3]
       = Inr (''3 goblins, 3 orcs, 3 dracs i 3 llops'', [])
   \<and> tape_dice ''3d6'' [12] = Some (12, []) \<and> (12::int) > 1
   \<and> TableEntry_result tape_dice
        (TableEntry (Some ''2'')
          (Some ''#a bruixa$(-es) i # bruix$(es),  #a fada$(-es) i # peix$(es)'') (Val ''3d6'') None) [12]
       = Inr (''12 bruixes i 12 bruixes, 12 fades i 12 peixes'', [])"
proof -
  have t1: "tape_dice ''1d4'' [2, 4] = Some (2, [4])"
    and t2: "tape_dice ''1d6'' [3] = Some (3, [])"
    and t3: "tape_dice ''3d6'' [12] = Some (12, [])"
    by (simp_all add: tape_dice_def)
  note w1 = C5_plural_order [where e = "TableEntry (Some ''3'') (Some ''bruix$(es)'') (Val ''1d4'') None"
      and d = "''bruix$(es)''" and die = "''1d4''" and ev = tape_dice and s = "[2, 4]" and count = 2
      and s' = "[4]", THEN conjunct2, THEN conjunct1, rule_format]
  have r1: "TableEntry_result tape_dice (TableEntry (Some ''3'') (Some ''bruix$(es)'') (Val ''1d4'') None) [2, 4]
       = Inr (''bruixes'', [4])"
    by (rule w1) (simp_all add: t1)
  note w2 = C5_plural_order [where
      e = "TableEntry (Some ''1'') (Some ''#a goblin$, #a orc$, # drac$ i # llop$'') (Val ''1d6'') None"
      and d = "''#a goblin$, #a orc$, # drac$ i # llop$''" and die = "''1d6''" and ev = tape_dice
      and s = "[3]" and count = 3 and s' = "[]", THEN conjunct2, THEN conjunct2, THEN conjunct1, rule_format]
  have r2: "TableEntry_result tape_dice
        (TableEntry (Some ''1'') (Some ''#a goblin$, #a orc$, # drac$ i # llop$'') (Val ''1d6'') None) [3]
       = Inr (''3 goblins, 3 orcs, 3 dracs i 3 llops'', [])"
    by (rule w2) (simp_all add: t2)
  note w3 = C5_plural_order [where
      e = "TableEntry (Some ''2'')
          (Some ''#a bruixa$(-es) i # bruix$(es),  #a fada$(-es) i # peix$(es)'') (Val ''3d6'') None"
      and d = "''#a bruixa$(-es) i # bruix$(es),  #a fada$(-es) i # peix$(es)''" and die = "''3d6''"
      and ev = tape_dice and s = "[12]" and count = 12 and s' = "[]",
      THEN conjunct2, THEN conjunct2, THEN conjunct2, rule_format]
  have r3: "TableEntry_result tape_dice
        (TableEntry (Some ''2'')
          (Some ''#a bruixa$(-es) i # bruix$(es),  #a fada$(-es) i # peix$(es)'') (Val ''3d6'') None) [12]
       = Inr (''12 bruixes i 12 bruixes, 12 fades i 12 peixes'', [])"
    by (rule w3) (simp_all add: t3)
  from t1 t2 t3 r1 r2 r3 show ?thesis
    by (intro conjI) simp_all
qed

text \<open>
  C6, as the code has it. When the \<open>Number\<close> expression of an entry evaluates to exactly
  1, every \<open>#\<close> of the \<open>Details\<close> is replaced by the word \<open>un\<close> (so that \<open>#a\<close>
  becomes \<open>una\<close>), before the unconditional removal of the markers and the replacement
  of two spaces by one.
\<close>

theorem C6_singular:
  assumes "Details e = Some d" and "Number e = Val die" and "die \<noteq> []"
    and "ev die s = Some (1, s')"
  shows "TableEntry_result ev e s =
      Inr (replace ''  '' '' '' (replace ''$'' [] (replace ''#'' [] (replace ''#a'' []
            (replace ''#'' ''un'' d)))), s')"
  using assms by (simp add: TableEntry_result_def substitute_def)

text \<open>The entry \<open>#a goblin#\<close> with a roll of 1 resolves to \<open>una goblinun\<close>.\<close>

theorem C6_singular_witness:
  "Details (TableEntry (Some ''1'') (Some ''#a goblin#'') (Val ''1d4'') None) = Some ''#a goblin#''
   \<and> tape_dice ''1d4'' [1] = Some (1, [])
   \<and> TableEntry_result tape_dice (TableEntry (Some ''1'') (Some ''#a goblin#'') (Val ''1d4'') None) [1]
       = Inr (''una goblinun'', [])"
  using C6_singular [of "TableEntry (Some ''1'') (Some ''#a goblin#'') (Val ''1d4'') None"
      "''#a goblin#''" "''1d4''" tape_dice "[1]" "[]"]
  by (simp add: tape_dice_def)

text \<open>
  C6 as the specification words it, with the word \<open>one\<close>, fails: for \<open>#a goblin#\<close>
  and a roll of 1 the code returns \<open>una goblinun\<close>, not the text that replacing
  \<open>#\<close> by \<open>one\<close> gives.
\<close>

theorem C6_one_counterexample:
  "TableEntry_result tape_dice (TableEntry (Some ''1'') (Some ''#a goblin#'') (Val ''1d4'') None) [1]
     = Inr (''una goblinun'', [])
   \<and> TableEntry_result tape_dice (TableEntry (Some ''1'') (Some ''#a goblin#'') (Val ''1d4'') None) [1]
     \<noteq> Inr (replace ''  '' '' '' (replace ''$'' [] (replace ''#'' [] (replace ''#a'' []
            (replace ''#'' ''one'' ''#a goblin#'')))), [])"
  by (simp add: TableEntry_result_def substitute_def tape_dice_def)

text \<open>
  C10. When \<open>Number\<close> is present but falsy (the empty string, or \<open>null\<close>), resolving the
  \<open>Details\<close> gives what an absent \<open>Number\<close> gives, and the dice evaluator is not
  called: the state of the random source comes back unchanged and an evaluator that fails
  on every call gives the same result. The count is 0: the text is the \<open>Details\<close> with
  \<open>#a\<close>, \<open>#\<close>, \<open>$\<close> removed and two spaces replaced by one, and no \<open>#\<close> and no
  \<open>$\<close> is left in it.
\<close>

theorem C10_falsy_Number:
  assumes "Number e = Null \<or> Number e = Val []"
  shows "TableEntry_result ev e s = TableEntry_result ev (TableEntry (Id_e e) (Details e) Absent (Table_e e)) s
    \<and> TableEntry_result ev e s = TableEntry_result (\<lambda>expr st. None) e s
    \<and> (\<forall>d. Details e = Some d \<longrightarrow>
          TableEntry_result ev e s =
            Inr (replace ''  '' '' '' (replace ''$'' [] (replace ''#'' [] (replace ''#a'' [] d))), s)
          \<and> CHR ''#'' \<notin> set (replace ''  '' '' '' (replace ''$'' [] (replace ''#'' [] (replace ''#a'' [] d))))
          \<and> CHR ''$'' \<notin> set (replace ''  '' '' '' (replace ''$'' [] (replace ''#'' [] (replace ''#a'' [] d)))))"
  using assms cleanup_no_markers
  by (auto simp add: TableEntry_result_def substitute_def split: option.splits)

text \<open>
  An entry with \<open>Number\<close> the empty string and an evaluator that always fails: the text
  is resolved all the same, with the markers removed.
\<close>

theorem C10_falsy_Number_witness:
  "Number (TableEntry (Some ''1'') (Some ''#a  goblin$ #'') (Val []) None) = Val []
   \<and> TableEntry_result (\<lambda>expr st. None) (TableEntry (Some ''1'') (Some ''#a  goblin$ #'') (Val []) None) (0::nat)
     = Inr ('' goblin '', 0)"
proof -
  let ?e = "TableEntry (Some ''1'') (Some ''#a  goblin$ #'') (Val []) None"
  have h: "Number ?e = Null \<or> Number ?e = Val []" by simp
  note w = C10_falsy_Number [OF h, of "\<lambda>expr st. None" "0::nat", THEN conjunct2, THEN conjunct2,
      rule_format, of "''#a  goblin$ #''", THEN conjunct1]
  have "Details ?e = Some ''#a  goblin$ #''" by simp
  from w [OF this] show ?thesis by simp
qed

section \<open>Properties of loading\<close>












text \<open>
  C4, the code at three pages with one Id. Two pages with the same Id load into one
  \<open>GroupOfPages\<close> holding both in insertion order. The third page reaches
  \<open>page0.add(page)\<close>, which \<open>GroupOfPages\<close> does not define: the load of the book,
  and likewise of a table, ends with AttributeError.
\<close>

theorem C4_third_page_raises:
  "Book_load (Some (BookDoc (Some ''mm'') (Some ''Monsters'') (Some 1)
       (Some [PageDoc (Some ''1'') (Some ''A'') Absent Absent, PageDoc (Some ''1'') (Some ''B'') Absent Absent])
       None Absent None)) True
     = Inr (Book ''mm'' ''Monsters'' MONSTER_MANUAL
         [(''1'', GroupOfPages ''1'' [PageDoc (Some ''1'') (Some ''A'') Absent Absent,
                                      PageDoc (Some ''1'') (Some ''B'') Absent Absent])])
   \<and> Book_load (Some (BookDoc (Some ''mm'') (Some ''Monsters'') (Some 1)
       (Some [PageDoc (Some ''1'') (Some ''A'') Absent Absent, PageDoc (Some ''1'') (Some ''B'') Absent Absent,
              PageDoc (Some ''1'') (Some ''C'') Absent Absent])
       None Absent None)) True
     = Inl AttributeError
   \<and> Table_load (Some (BookDoc (Some ''t'') (Some ''Treasure'') (Some 2)
       (Some [PageDoc (Some ''1'') (Some ''A'') Absent Absent, PageDoc (Some ''1'') (Some ''B'') Absent Absent,
              PageDoc (Some ''1'') (Some ''C'') Absent Absent])
       (Some ''1d8'') Absent None))
     = Inl AttributeError"
  by (simp add: Book_load_def Book_header_def BookType_def Page_init_def add_to_pages_def)

section \<open>Properties of a roll\<close>

lemmas ev_simps = Table_roll.simps roll_entry.simps Table_find_def TableEntry_result_def
  substitute_def tape_dice_def id_as_range_def py_int_def py_nat_def strip_def is_space_def
  is_digit_def digit_val_def str_int_def digit_def combine_def Let_def

lemma find_loop_filter:
  "find_loop ps rid acc = Inr es \<Longrightarrow>
   es = acc @ concat (map slot_pages (filter (matches rid) (map snd ps)))"
proof (induction ps arbitrary: acc)
  case Nil
  then show ?case by simp
next
  case (Cons a ps)
  obtain k sl where a: "a = (k, sl)" by (cases a)
  from Cons.prems a obtain r where r: "slot_id_as_range sl = Inr r"
    by (auto split: sum.splits)
  show ?case
  proof (cases "in_range rid r")
    case True
    with Cons.prems a r have "find_loop ps rid (acc @ slot_pages sl) = Inr es" by simp
    from Cons.IH [OF this] True r a show ?thesis by simp
  next
    case False
    with Cons.prems a r have "find_loop ps rid acc = Inr es" by simp
    from Cons.IH [OF this] False r a show ?thesis by simp
  qed
qed

lemma find_loop_ok:
  "(\<exists>es. find_loop ps rid acc = Inr es) \<longleftrightarrow> (\<forall>sl\<in>set (map snd ps). \<exists>r. slot_id_as_range sl = Inr r)"
proof (induction ps arbitrary: acc)
  case Nil
  then show ?case by simp
next
  case (Cons a ps)
  obtain k sl where a: "a = (k, sl)" by (cases a)
  show ?case
  proof (cases "slot_id_as_range sl")
    case (Inl e)
    with a show ?thesis by auto
  next
    case (Inr r)
    with a Cons.IH [of "acc @ slot_pages sl"] Cons.IH [of acc] show ?thesis
      by (cases "in_range rid r") auto
  qed
qed

lemma matches_JStr: "\<not> matches (JStr x) sl"
  by (auto split: sum.splits)

lemma roll_entries_append:
  "roll_entries ev (es1 @ es2) acc s =
     (case roll_entries ev es1 acc s of
        Inl e \<Rightarrow> Inl e
      | Inr (acc', s') \<Rightarrow> roll_entries ev es2 acc' s')"
  by (induction es1 arbitrary: acc s) (auto split: sum.splits)

lemma concat_lines_join: "cs \<noteq> [] \<Longrightarrow> concat (map (\<lambda>c. nl @ c) cs) = nl @ join nl cs"
  by (induction nl cs rule: join.induct) simp_all

lemma roll_entries_texts:
  "roll_entries ev es acc s = Inr (out, s') \<Longrightarrow>
   \<exists>cs. entry_texts ev es s = Inr (cs, s') \<and> length cs = length es
      \<and> fst out = fst acc @ concat (map (\<lambda>c. nl @ c) cs)"
proof (induction es arbitrary: acc s)
  case Nil
  then show ?case by auto
next
  case (Cons e es)
  from Cons.prems obtain c x s1 where
    e: "roll_entry ev e s = Inr ((c, x), s1)"
    and r: "roll_entries ev es (fst acc @ nl @ c, snd acc @ x) s1 = Inr (out, s')"
    by (auto split: sum.splits)
  from Cons.IH [OF r] obtain cs where
    cs: "entry_texts ev es s1 = Inr (cs, s')" "length cs = length es"
        "fst out = (fst acc @ nl @ c) @ concat (map (\<lambda>c. nl @ c) cs)"
    by auto
  with e have "entry_texts ev (e # es) s = Inr (c # cs, s')
      \<and> length (c # cs) = length (e # es)
      \<and> fst out = fst acc @ concat (map (\<lambda>c. nl @ c) (c # cs))"
    by simp
  then show ?case by blast
qed

lemma roll_entries_expl_prefix:
  "roll_entries ev es acc s = Inr (out, s') \<Longrightarrow> \<exists>xs. snd out = snd acc @ xs"
proof (induction es arbitrary: acc s)
  case Nil
  then show ?case by auto
next
  case (Cons e es)
  from Cons.prems obtain c x s1 where
    r: "roll_entries ev es (fst acc @ nl @ c, snd acc @ x) s1 = Inr (out, s')"
    by (auto split: sum.splits)
  from Cons.IH [OF r] show ?case by auto
qed

lemma roll_Number_falsy: "\<not> truthy_field (\<lambda>d. d \<noteq> []) n \<Longrightarrow> roll_Number ev n s = Some (0, s)"
  by (cases n) auto

lemma roll_entry_static:
  "static e \<Longrightarrow> roll_entry ev e s =
     (case Details e of None \<Rightarrow> Inl AttributeError | Some d \<Rightarrow> Inr ((substitute 0 d, []), s))"
  by (simp add: roll_entry.simps TableEntry_result_def roll_Number_falsy split: option.splits)

lemma roll_entries_static:
  "\<forall>e\<in>set es. static e \<Longrightarrow> roll_entries ev es acc s = Inr (out, s') \<Longrightarrow>
   roll_entries ev' es acc s2 = Inr (out, s2)"
proof (induction es arbitrary: acc)
  case Nil
  then show ?case by simp
next
  case (Cons e es)
  from Cons.prems(1) have e: "static e" and rest: "\<forall>e\<in>set es. static e" by simp_all
  from Cons.prems(2) e obtain d where d: "Details e = Some d"
    by (cases "Details e") (auto simp add: roll_entry_static)
  from Cons.prems(2) e d
  have "roll_entries ev es (fst acc @ nl @ substitute 0 d, snd acc @ []) s = Inr (out, s')"
    by (simp add: roll_entry_static)
  from Cons.IH [OF rest this] e d show ?case
    by (simp add: roll_entry_static)
qed

lemma keyed_Nil: "keyed Id_of []"
  by (simp add: keyed_def)

lemma add_to_pages_keyed:
  assumes "keyed Id_of pgs" and "add_to_pages Id_of page pgs = Inr pgs'"
  shows "keyed Id_of pgs'"
proof -
  from assms(2) obtain k where k: "Id_of page = Some k"
    by (auto simp add: add_to_pages_def split: option.splits)
  show ?thesis
  proof (cases "map_of pgs k")
    case None
    with assms(2) k have "pgs' = AList.update k (OnePage page) pgs"
      by (simp add: add_to_pages_def)
    with assms(1) k show ?thesis
      by (auto simp add: keyed_def distinct_update update_conv' split: if_splits)
  next
    case (Some sl)
    show ?thesis
    proof (cases sl)
      case (OnePage page0)
      from assms(1) Some OnePage have p0: "Id_of page0 = Some k"
        by (auto simp add: keyed_def)
      with assms(2) k Some OnePage
      have "pgs' = AList.update k (GroupOfPages k [page0, page]) pgs"
        by (simp add: add_to_pages_def)
      with assms(1) k p0 show ?thesis
        by (auto simp add: keyed_def distinct_update update_conv' split: if_splits)
    next
      case (GroupOfPages gid ps)
      with assms(2) k Some show ?thesis
        by (simp add: add_to_pages_def)
    qed
  qed
qed

lemma load_entries_keyed:
  "keyed Id_e pgs0 \<Longrightarrow> load_entries ds pgs0 = Inr pgs \<Longrightarrow> keyed Id_e pgs"
proof (induction ds arbitrary: pgs0)
  case Nil
  then show ?case by simp
next
  case (Cons d ds)
  from Cons.prems(2) obtain e pgs1 where
    a: "add_to_pages Id_e e pgs0 = Inr pgs1" and l: "load_entries ds pgs1 = Inr pgs"
    by (auto split: sum.splits)
  from add_to_pages_keyed [OF Cons.prems(1) a] l show ?case
    by (rule Cons.IH)
qed

lemma Table_load_keyed: "Table_load book = Inr t \<Longrightarrow> keyed Id_e (pages t)"
proof (cases book)
  case None
  assume "Table_load book = Inr t"
  with None show ?thesis by simp
next
  case (Some doc)
  assume t: "Table_load book = Inr t"
  obtain i ttl ty ps die fr rp where doc: "doc = BookDoc i ttl ty ps die fr rp"
    by (cases doc)
  from t Some doc obtain ds pgs where "load_entries ds [] = Inr pgs" and "pages t = pgs"
    by (auto split: sum.splits option.splits)
  with load_entries_keyed [OF keyed_Nil] show ?thesis by auto
qed

lemma keyed_slot_range:
  assumes "keyed Id_e pgs" and "(k, sl) \<in> set pgs" and "e \<in> set (slot_pages sl)"
  shows "Id_e e = Some k" and "slot_id_as_range sl = id_as_range k"
proof -
  from assms(1,2) have m: "map_of pgs k = Some sl"
    by (simp add: keyed_def)
  with assms(1) have inv: "(\<forall>p\<in>set (slot_pages sl). Id_e p = Some k) \<and>
      (case sl of OnePage p \<Rightarrow> True | GroupOfPages gid ps \<Rightarrow> gid = k \<and> length ps = 2)"
    unfolding keyed_def by blast
  with assms(3) show "Id_e e = Some k" by blast
  from inv show "slot_id_as_range sl = id_as_range k"
    by (cases sl) simp_all
qed

lemma found_entries_own_range:
  assumes "keyed Id_e (pages t)" and "Table_find t (JInt n) = Inr es"
  shows "e \<in> set es \<longleftrightarrow>
     e \<in> set (concat (map (\<lambda>(k, sl). slot_pages sl) (pages t)))
     \<and> (\<exists>i lo hi. Id_e e = Some i \<and> id_as_range i = Inr (lo, hi) \<and> lo \<le> n \<and> n < hi)"
proof -
  from assms(2) have es: "es = concat (map slot_pages (filter (matches (JInt n)) (map snd (pages t))))"
    using find_loop_filter [of "pages t" "JInt n" "[]" es] by (simp add: Table_find_def)
  from assms(2) have ok: "\<forall>sl\<in>set (map snd (pages t)). \<exists>r. slot_id_as_range sl = Inr r"
    using find_loop_ok [of "pages t" "JInt n" "[]"] by (auto simp add: Table_find_def)
  show ?thesis
  proof
    assume "e \<in> set es"
    with es obtain k sl where sl: "(k, sl) \<in> set (pages t)" "matches (JInt n) sl" "e \<in> set (slot_pages sl)"
      by auto
    from keyed_slot_range [OF assms(1) sl(1) sl(3)] sl(2)
    have "\<exists>i lo hi. Id_e e = Some i \<and> id_as_range i = Inr (lo, hi) \<and> lo \<le> n \<and> n < hi"
      by (auto split: sum.splits)
    moreover from sl have "e \<in> set (concat (map (\<lambda>(k, sl). slot_pages sl) (pages t)))"
      by auto
    ultimately show "e \<in> set (concat (map (\<lambda>(k, sl). slot_pages sl) (pages t)))
     \<and> (\<exists>i lo hi. Id_e e = Some i \<and> id_as_range i = Inr (lo, hi) \<and> lo \<le> n \<and> n < hi)"
      by simp
  next
    assume r: "e \<in> set (concat (map (\<lambda>(k, sl). slot_pages sl) (pages t)))
     \<and> (\<exists>i lo hi. Id_e e = Some i \<and> id_as_range i = Inr (lo, hi) \<and> lo \<le> n \<and> n < hi)"
    then obtain k sl where sl: "(k, sl) \<in> set (pages t)" "e \<in> set (slot_pages sl)"
      by auto
    from r obtain i lo hi where i: "Id_e e = Some i" "id_as_range i = Inr (lo, hi)" "lo \<le> n" "n < hi"
      by auto
    from keyed_slot_range [OF assms(1) sl] i have "matches (JInt n) sl"
      by simp
    with sl es show "e \<in> set es"
      by force
  qed
qed

lemma overlap_table_find:
  "Table_find overlap_table (JInt 2) =
     Inr [TableEntry (Some ''1-3'') (Some ''a'') Absent None,
          TableEntry (Some ''1-3'') (Some ''c'') Absent None,
          TableEntry (Some ''2'') (Some ''b'') Absent None]"
  by (simp add: overlap_table_def ev_simps)

lemma overlap_table_roll:
  "Table_roll tape_dice overlap_table [2] =
     Inr ((nl @ ''a'' @ nl @ ''c'' @ nl @ ''b'', [''1d3 -> **2**'']), [])"
  by (simp add: overlap_table_def ev_simps)

lemma gold_table_roll:
  "Table_roll tape_dice (gold_table op) [1] = Inr ((nl @ ''Gold: 20gp'', [''1d2 -> **1**'']), [])"
  "Table_roll tape_dice (gold_table op) [2] = Inr (([], [''1d2 -> **2**'']), [])"
  by (simp_all add: gold_table_def ev_simps)

lemma forced_table_roll:
  "Table_roll tape_dice (forced_table (JInt 2)) [3] = Inr ((nl @ ''gold'', [''1d4 -> **2**'']), [])"
  "Table_roll tape_dice (forced_table (JInt 2)) [1] = Inr ((nl @ ''gold'', [''1d4 -> **2**'']), [])"
  "Table_roll tape_dice (forced_table (JStr ''2'')) [2] = Inr (([], [''1d4 -> **2**'']), [])"
  by (simp_all add: forced_table_def ev_simps)

text \<open>
  C1, as the code has it. \<open>Table.find\<close> returns the pages of the slots whose
  \<open>id_as_range\<close> contains the rolled id, a group replaced by its pages, in the order of
  the table's dictionary of pages; it returns at all exactly when the range of every slot
  can be computed. The rolled id is compared as it is: an integer is tested against the
  bounds of the range, a string (a \<open>forced_roll\<close> given as a string) is in no range,
  so nothing is found for it. \<open>Table.roll\<close> runs its loop over exactly the entries
  found, in that order: the loop over a list in two parts is the loop over the first part
  followed by the loop over the second. In a table that was loaded, every page lies under
  its own Id and a group under the Id of its pages, so for an integer rolled id the entries
  found are exactly the entries of the table whose own \<open>id_as_range\<close> contains it.
\<close>

theorem C1_find_matching:
  "(Table_find t rid = Inr es \<longrightarrow>
      es = concat (map slot_pages (filter (matches rid) (map snd (pages t)))))
   \<and> (Table_find t (JStr x) = Inr es \<longrightarrow> es = [])
   \<and> ((\<exists>es'. Table_find t rid = Inr es') \<longleftrightarrow>
        (\<forall>sl\<in>set (map snd (pages t)). \<exists>r. slot_id_as_range sl = Inr r))
   \<and> (ev (Die t) s = Some (n, s1) \<and> Table_find t (rolled_id (forced_roll t) n) = Inr es \<longrightarrow>
        Table_roll ev t s = roll_entries ev es
          ([], [Die t @ '' -> **'' @ str_scalar (rolled_id (forced_roll t) n) @ ''**'']) s1)
   \<and> roll_entries ev (es1 @ es2) acc s =
        (case roll_entries ev es1 acc s of
           Inl e \<Rightarrow> Inl e
         | Inr (acc', s') \<Rightarrow> roll_entries ev es2 acc' s')
   \<and> (Table_load book = Inr t \<and> Table_find t (JInt j) = Inr es \<longrightarrow>
        (\<forall>e. e \<in> set es \<longleftrightarrow>
           e \<in> set (concat (map (\<lambda>(k, sl). slot_pages sl) (pages t)))
           \<and> (\<exists>i lo hi. Id_e e = Some i \<and> id_as_range i = Inr (lo, hi) \<and> lo \<le> j \<and> j < hi)))"
proof (intro conjI impI allI)
  assume "Table_find t rid = Inr es"
  then show "es = concat (map slot_pages (filter (matches rid) (map snd (pages t))))"
    using find_loop_filter [of "pages t" rid "[]" es] by (simp add: Table_find_def)
next
  assume "Table_find t (JStr x) = Inr es"
  then have "es = concat (map slot_pages (filter (matches (JStr x)) (map snd (pages t))))"
    using find_loop_filter [of "pages t" "JStr x" "[]" es] by (simp add: Table_find_def)
  moreover have "filter (matches (JStr x)) (map snd (pages t)) = []"
    using matches_JStr by (simp add: filter_empty_conv)
  ultimately show "es = []" by simp
next
  show "(\<exists>es'. Table_find t rid = Inr es') \<longleftrightarrow>
        (\<forall>sl\<in>set (map snd (pages t)). \<exists>r. slot_id_as_range sl = Inr r)"
    unfolding Table_find_def by (rule find_loop_ok)
next
  assume "ev (Die t) s = Some (n, s1) \<and> Table_find t (rolled_id (forced_roll t) n) = Inr es"
  then show "Table_roll ev t s = roll_entries ev es
          ([], [Die t @ '' -> **'' @ str_scalar (rolled_id (forced_roll t) n) @ ''**'']) s1"
    by (simp add: Table_roll.simps Let_def)
next
  show "roll_entries ev (es1 @ es2) acc s =
        (case roll_entries ev es1 acc s of
           Inl e \<Rightarrow> Inl e
         | Inr (acc', s') \<Rightarrow> roll_entries ev es2 acc' s')"
    by (rule roll_entries_append)
next
  fix e
  assume "Table_load book = Inr t \<and> Table_find t (JInt j) = Inr es"
  then have l: "Table_load book = Inr t" and f: "Table_find t (JInt j) = Inr es"
    by simp_all
  from Table_load_keyed [OF l] f show "e \<in> set es \<longleftrightarrow>
           e \<in> set (concat (map (\<lambda>(k, sl). slot_pages sl) (pages t)))
           \<and> (\<exists>i lo hi. Id_e e = Some i \<and> id_as_range i = Inr (lo, hi) \<and> lo \<le> j \<and> j < hi)"
    by (rule found_entries_own_range)
qed

text \<open>
  The table whose pages are \<open>1-3\<close>, \<open>2\<close>, \<open>1-3\<close>, with a roll of 2: the three
  entries are found, the two pages of the group \<open>1-3\<close> first, and all three are
  resolved in that order. The table with the forced roll given as a string finds nothing.
\<close>

theorem C1_find_matching_witness:
  "Table_load (Some overlap_doc) = Inr overlap_table
   \<and> Table_find overlap_table (JInt 2) =
       Inr [TableEntry (Some ''1-3'') (Some ''a'') Absent None,
            TableEntry (Some ''1-3'') (Some ''c'') Absent None,
            TableEntry (Some ''2'') (Some ''b'') Absent None]
   \<and> tape_dice (Die overlap_table) [2] = Some (2, [])
   \<and> Table_roll tape_dice overlap_table [2] =
       Inr ((nl @ ''a'' @ nl @ ''c'' @ nl @ ''b'', [''1d3 -> **2**'']), [])
   \<and> Table_find (forced_table (JStr ''2'')) (JStr ''2'') = Inr []
   \<and> (\<exists>i lo hi. Id_e (TableEntry (Some ''2'') (Some ''b'') Absent None) = Some i
         \<and> id_as_range i = Inr (lo, hi) \<and> lo \<le> 2 \<and> 2 < hi)"
proof -
  let ?es = "[TableEntry (Some ''1-3'') (Some ''a'') Absent None,
              TableEntry (Some ''1-3'') (Some ''c'') Absent None,
              TableEntry (Some ''2'') (Some ''b'') Absent None]"
  let ?ft = "forced_table (JStr ''2'')"
  have load: "Table_load (Some overlap_doc) = Inr overlap_table"
    by (simp add: overlap_doc_def overlap_table_def Book_header_def BookType_def add_to_pages_def)
  have die: "tape_dice (Die overlap_table) [2] = Some (2, [])"
    by (simp add: tape_dice_def)
  have "rolled_id (forced_roll overlap_table) 2 = JInt 2"
    by (simp add: overlap_table_def)
  with overlap_table_find
  have found: "Table_find overlap_table (rolled_id (forced_roll overlap_table) 2) = Inr ?es"
    by simp
  have ranges: "\<forall>sl\<in>set (map snd (pages ?ft)). \<exists>r. slot_id_as_range sl = Inr r"
    by (simp add: forced_table_def ev_simps)
  note ok = C1_find_matching [where t = ?ft and rid = "JStr ''2''",
      THEN conjunct2, THEN conjunct2, THEN conjunct1]
  from ok ranges have "\<exists>es'. Table_find ?ft (JStr ''2'') = Inr es'"
    by (rule iffD2)
  then obtain es' where es': "Table_find ?ft (JStr ''2'') = Inr es'" ..
  note str = C1_find_matching [where t = ?ft and x = "''2''" and es = es',
      THEN conjunct2, THEN conjunct1, rule_format]
  from str [OF es'] es' have none: "Table_find ?ft (JStr ''2'') = Inr []"
    by simp
  note roll = C1_find_matching [where t = overlap_table and ev = tape_dice and s = "[2]"
      and n = 2 and ?s1.0 = "[]" and es = ?es,
      THEN conjunct2, THEN conjunct2, THEN conjunct2, THEN conjunct1, rule_format]
  note run = roll [OF conjI [OF die found]]
  from run overlap_table_roll
  have "roll_entries tape_dice ?es
      ([], [Die overlap_table @ '' -> **'' @ str_scalar (rolled_id (forced_roll overlap_table) 2) @ ''**'']) []
      = Inr ((nl @ ''a'' @ nl @ ''c'' @ nl @ ''b'', [''1d3 -> **2**'']), [])"
    by simp
  with run have "Table_roll tape_dice overlap_table [2] =
      Inr ((nl @ ''a'' @ nl @ ''c'' @ nl @ ''b'', [''1d3 -> **2**'']), [])"
    by simp
  note own = C1_find_matching [where book = "Some overlap_doc" and t = overlap_table and j = 2
      and es = ?es, THEN conjunct2, THEN conjunct2, THEN conjunct2, THEN conjunct2, THEN conjunct2,
      rule_format, OF conjI [OF load overlap_table_find],
      of "TableEntry (Some ''2'') (Some ''b'') Absent None", THEN iffD1, THEN conjunct2]
  have "\<exists>i lo hi. Id_e (TableEntry (Some ''2'') (Some ''b'') Absent None) = Some i
         \<and> id_as_range i = Inr (lo, hi) \<and> lo \<le> 2 \<and> 2 < hi"
    by (rule own) simp
  with load die none overlap_table_find
    \<open>Table_roll tape_dice overlap_table [2] =
      Inr ((nl @ ''a'' @ nl @ ''c'' @ nl @ ''b'', [''1d3 -> **2**'']), [])\<close>
  show ?thesis
    by (intro conjI) assumption+
qed

text \<open>
  C1 as the specification words it fails for a forced roll given as a string, the type the
  specification gives it: the table loads, its entry \<open>2\<close> has the range that contains
  2, the forced roll is \<open>2\<close> and the first line of the explanation shows it, and yet no
  entry is found and the result is empty.
\<close>

theorem C1_string_forced_roll_counterexample:
  "Table_load (Some (forced_doc (JStr ''2''))) = Inr (forced_table (JStr ''2''))
   \<and> pages (forced_table (JStr ''2'')) = [(''2'', OnePage (TableEntry (Some ''2'') (Some ''gold'') Absent None))]
   \<and> id_as_range ''2'' = Inr (2, 3)
   \<and> rolled_id (forced_roll (forced_table (JStr ''2''))) 2 = JStr ''2''
   \<and> Table_find (forced_table (JStr ''2'')) (JStr ''2'') = Inr []
   \<and> Table_roll tape_dice (forced_table (JStr ''2'')) [2] = Inr (([], [''1d4 -> **2**'']), [])"
  by (simp add: forced_doc_def forced_table_def Book_header_def BookType_def add_to_pages_def ev_simps)

text \<open>
  C2, as the code has it. For an entry with a sub-table the sub-table is rolled. When its
  result is not empty, the entry's text becomes the sub-result under \<open>replace\<close>, the
  text, a newline and the sub-result under \<open>append\<close>, the text and the sub-result under
  \<open>concat\<close>, and the explanation lines of the sub-roll are added to the running
  explanation, whatever the operation. When the sub-result is empty, the entry keeps its
  own text under every operation and the explanation lines of the sub-roll are dropped.
\<close>

theorem C2_combine_nonempty:
  assumes "TableEntry_result ev e s = Inr (cresult, s1)" and "Table_e e = Some sub"
    and "Table_roll ev sub s1 = Inr ((sresult, sexpl), s2)"
  shows "(sresult \<noteq> [] \<and> rop sub = ''replace'' \<longrightarrow> roll_entry ev e s = Inr ((sresult, sexpl), s2))
    \<and> (sresult \<noteq> [] \<and> rop sub = ''append'' \<longrightarrow>
          roll_entry ev e s = Inr ((cresult @ nl @ sresult, sexpl), s2))
    \<and> (sresult \<noteq> [] \<and> rop sub = ''concat'' \<longrightarrow>
          roll_entry ev e s = Inr ((cresult @ sresult, sexpl), s2))
    \<and> (sresult = [] \<longrightarrow> roll_entry ev e s = Inr ((cresult, []), s2))
    \<and> (\<exists>c x. roll_entry ev e s = Inr ((c, x), s2) \<and> (sresult \<noteq> [] \<longrightarrow> x = sexpl)
          \<and> roll_entries ev (e # es) (result, explanation) s =
              roll_entries ev es (result @ nl @ c, explanation @ x) s2)"
  using assms by (auto simp add: roll_entry.simps combine_def)

text \<open>
  The chest whose entry rolls on the gold table. With \<open>append\<close> and a sub-roll of 1, the
  text is the chest, a newline and the sub-result, and the line of the sub-roll is kept;
  with \<open>replace\<close> and a sub-roll of 2, which matches nothing, the chest keeps its text.
\<close>

theorem C2_combine_nonempty_witness:
  "TableEntry_result tape_dice (chest_entry ''append'') [1] = Inr (''You find a chest.'', [1])
   \<and> Table_e (chest_entry ''append'') = Some (gold_table ''append'')
   \<and> Table_roll tape_dice (gold_table ''append'') [1] = Inr ((nl @ ''Gold: 20gp'', [''1d2 -> **1**'']), [])
   \<and> roll_entry tape_dice (chest_entry ''append'') [1] =
       Inr ((''You find a chest.'' @ nl @ nl @ ''Gold: 20gp'', [''1d2 -> **1**'']), [])
   \<and> Table_roll tape_dice (gold_table ''replace'') [2] = Inr (([], [''1d2 -> **2**'']), [])
   \<and> roll_entry tape_dice (chest_entry ''replace'') [2] = Inr ((''You find a chest.'', []), [])"
proof -
  have a1: "TableEntry_result tape_dice (chest_entry op) s = Inr (''You find a chest.'', s)" for op s
    by (simp add: chest_entry_def ev_simps)
  have a2: "Table_e (chest_entry op) = Some (gold_table op)" for op
    by (simp add: chest_entry_def)
  have rp: "rop (gold_table op) = op" for op
    by (simp add: gold_table_def)
  from C2_combine_nonempty [OF a1 a2 gold_table_roll(1), of "''append''"] rp
  have w1: "roll_entry tape_dice (chest_entry ''append'') [1] =
       Inr ((''You find a chest.'' @ nl @ nl @ ''Gold: 20gp'', [''1d2 -> **1**'']), [])"
    by simp
  from C2_combine_nonempty [OF a1 a2 gold_table_roll(2), of "''replace''"]
  have w2: "roll_entry tape_dice (chest_entry ''replace'') [2] = Inr ((''You find a chest.'', []), [])"
    by simp
  from a1 a2 gold_table_roll w1 w2 show ?thesis by simp
qed

text \<open>
  C2 as the specification words it fails when the sub-result is empty. The gold table with
  a roll of 2 matches nothing: its result is empty and its explanation has one line. With
  \<open>replace\<close> the chest entry keeps its own text instead of the empty sub-result, and
  the line of the sub-roll is not in the explanation of the chest table.
\<close>

theorem C2_empty_subresult_counterexample:
  "Table_roll tape_dice (gold_table ''replace'') [2] = Inr (([], [''1d2 -> **2**'']), [])
   \<and> roll_entry tape_dice (chest_entry ''replace'') [2] = Inr ((''You find a chest.'', []), [])
   \<and> roll_entry tape_dice (chest_entry ''replace'') [2] \<noteq> Inr (([], [''1d2 -> **2**'']), [])
   \<and> Table_roll tape_dice (chest_table ''replace'') [1, 2] =
       Inr ((nl @ ''You find a chest.'', [''1d1 -> **1**'']), [])"
  by (simp add: chest_table_def chest_entry_def gold_table_def ev_simps)

text \<open>
  C7, as the code has it. For a table whose \<open>forced_roll\<close> is present and truthy, every
  roll that returns uses the forced value as the rolled id: the first line of the
  explanation is the \<open>Die\<close> expression, an arrow and the forced value, the same on
  every call, and the entries found are those \<open>Table.find\<close> gives for the forced value,
  whatever the dice give. Two rolls return the same result and the same explanation when
  no entry found has a truthy \<open>Number\<close> or a sub-table; the \<open>Number\<close> of an entry
  and the sub-tables are still rolled at random.
\<close>

theorem C7_forced_roll:
  assumes "forced_roll t = Val v" and "truthy v"
    and "Table_roll ev t s = Inr ((result, explanation), s')"
    and "Table_roll ev t s2 = Inr ((result2, explanation2), s2')"
  shows "hd explanation = Die t @ '' -> **'' @ str_scalar v @ ''**''
    \<and> hd explanation2 = hd explanation
    \<and> (\<exists>es. Table_find t v = Inr es
         \<and> ((\<forall>e\<in>set es. static e) \<longrightarrow> result2 = result \<and> explanation2 = explanation))"
proof -
  let ?line = "Die t @ '' -> **'' @ str_scalar v @ ''**''"
  from assms(3) obtain n s1 where n: "ev (Die t) s = Some (n, s1)"
    by (auto simp add: Table_roll.simps Let_def split: option.splits)
  from assms(4) obtain m s3 where m: "ev (Die t) s2 = Some (m, s3)"
    by (auto simp add: Table_roll.simps Let_def split: option.splits)
  from assms(1,2) have rid: "rolled_id (forced_roll t) n = v" "rolled_id (forced_roll t) m = v"
    by simp_all
  from assms(3) n rid obtain es where es: "Table_find t v = Inr es"
    by (auto simp add: Table_roll.simps Let_def split: sum.splits)
  from assms(3) n rid es have r1: "roll_entries ev es ([], [?line]) s1 = Inr ((result, explanation), s')"
    by (simp add: Table_roll.simps Let_def)
  from assms(4) m rid es have r2: "roll_entries ev es ([], [?line]) s3 = Inr ((result2, explanation2), s2')"
    by (simp add: Table_roll.simps Let_def)
  from roll_entries_expl_prefix [OF r1] have h1: "hd explanation = ?line" by auto
  from roll_entries_expl_prefix [OF r2] have h2: "hd explanation2 = ?line" by auto
  have "result2 = result \<and> explanation2 = explanation" if st: "\<forall>e\<in>set es. static e"
    using roll_entries_static [OF st r1, of ev s3] r2 by simp
  with h1 h2 es show ?thesis by auto
qed

text \<open>
  The table with the forced roll 2 and one entry without \<open>Number\<close>: two rolls from
  different states of the dice return the same pair.
\<close>

theorem C7_forced_roll_witness:
  "forced_roll (forced_table (JInt 2)) = Val (JInt 2) \<and> truthy (JInt 2)
   \<and> Table_roll tape_dice (forced_table (JInt 2)) [3] = Inr ((nl @ ''gold'', [''1d4 -> **2**'']), [])
   \<and> Table_roll tape_dice (forced_table (JInt 2)) [1] = Inr ((nl @ ''gold'', [''1d4 -> **2**'']), [])
   \<and> hd [''1d4 -> **2**''] = Die (forced_table (JInt 2)) @ '' -> **'' @ str_scalar (JInt 2) @ ''**''"
proof -
  have f: "forced_roll (forced_table (JInt 2)) = Val (JInt 2)"
    by (simp add: forced_table_def)
  have t: "truthy (JInt 2)" by simp
  note w = C7_forced_roll [OF f t forced_table_roll(1) forced_table_roll(2), THEN conjunct1]
  from f t forced_table_roll(1,2) w show ?thesis by simp
qed

text \<open>
  C7 as the specification words it fails: the table has the forced roll 1 and its entry
  the \<open>Number\<close> \<open>1d2\<close>. Two calls in a row, the second from the state of the dice that
  the first leaves, return different results, since the \<open>Number\<close> is rolled anew.
\<close>

theorem C7_random_Number_counterexample:
  "forced_roll goblin_table = Val (JInt 1)
   \<and> Table_roll tape_dice goblin_table [3, 1, 2, 2] = Inr ((nl @ ''un goblin'', [''1d4 -> **1**'']), [2, 2])
   \<and> Table_roll tape_dice goblin_table [2, 2] = Inr ((nl @ ''2 goblins'', [''1d4 -> **1**'']), [])
   \<and> nl @ ''un goblin'' \<noteq> nl @ ''2 goblins''"
  by (simp add: goblin_table_def ev_simps)

text \<open>
  C8, as the code has it. The result of a roll that returns is the concatenation, over the
  entries found and in their order, of a newline followed by the entry's text: when at
  least one entry is found it is a newline followed by the texts joined by newlines, so it
  begins with a newline. When no entry is found the roll returns normally, with the empty
  result and the one line of explanation.
\<close>

theorem C8_result_lines:
  "(Table_roll ev t s = Inr ((result, explanation), s') \<longrightarrow>
      (\<exists>n s1 es cs. ev (Die t) s = Some (n, s1)
         \<and> Table_find t (rolled_id (forced_roll t) n) = Inr es
         \<and> entry_texts ev es s1 = Inr (cs, s') \<and> length cs = length es
         \<and> result = concat (map (\<lambda>c. nl @ c) cs)
         \<and> result = (if cs = [] then [] else nl @ join nl cs)))
   \<and> (ev (Die t) s = Some (n, s1) \<and> Table_find t (rolled_id (forced_roll t) n) = Inr [] \<longrightarrow>
        Table_roll ev t s =
          Inr (([], [Die t @ '' -> **'' @ str_scalar (rolled_id (forced_roll t) n) @ ''**'']), s1))"
proof (intro conjI impI)
  assume r: "Table_roll ev t s = Inr ((result, explanation), s')"
  then obtain n s1 where n: "ev (Die t) s = Some (n, s1)"
    by (auto simp add: Table_roll.simps Let_def split: option.splits)
  with r obtain es where es: "Table_find t (rolled_id (forced_roll t) n) = Inr es"
    by (auto simp add: Table_roll.simps Let_def split: sum.splits)
  with r n have "roll_entries ev es
      ([], [Die t @ '' -> **'' @ str_scalar (rolled_id (forced_roll t) n) @ ''**'']) s1
      = Inr ((result, explanation), s')"
    by (simp add: Table_roll.simps Let_def)
  from roll_entries_texts [OF this] obtain cs where cs:
    "entry_texts ev es s1 = Inr (cs, s')" "length cs = length es"
    "result = concat (map (\<lambda>c. nl @ c) cs)"
    by auto
  from cs(3) concat_lines_join [of cs] have "result = (if cs = [] then [] else nl @ join nl cs)"
    by (cases "cs = []") simp_all
  with n es cs show "\<exists>n s1 es cs. ev (Die t) s = Some (n, s1)
         \<and> Table_find t (rolled_id (forced_roll t) n) = Inr es
         \<and> entry_texts ev es s1 = Inr (cs, s') \<and> length cs = length es
         \<and> result = concat (map (\<lambda>c. nl @ c) cs)
         \<and> result = (if cs = [] then [] else nl @ join nl cs)"
    by blast
next
  assume "ev (Die t) s = Some (n, s1) \<and> Table_find t (rolled_id (forced_roll t) n) = Inr []"
  then show "Table_roll ev t s =
          Inr (([], [Die t @ '' -> **'' @ str_scalar (rolled_id (forced_roll t) n) @ ''**'']), s1)"
    by (simp add: Table_roll.simps Let_def)
qed

text \<open>
  The table with the pages \<open>1-3\<close>, \<open>2\<close>, \<open>1-3\<close> and a roll of 2: the result is a
  newline before each of the three texts. The gold table with a roll of 2 finds nothing and
  returns the empty result.
\<close>

theorem C8_result_lines_witness:
  "Table_roll tape_dice overlap_table [2] =
       Inr ((nl @ ''a'' @ nl @ ''c'' @ nl @ ''b'', [''1d3 -> **2**'']), [])
   \<and> (\<exists>cs. nl @ ''a'' @ nl @ ''c'' @ nl @ ''b'' = concat (map (\<lambda>c. nl @ c) cs) \<and> length cs = 3)
   \<and> tape_dice (Die (gold_table ''replace'')) [2] = Some (2, [])
   \<and> Table_find (gold_table ''replace'') (rolled_id (forced_roll (gold_table ''replace'')) 2) = Inr []
   \<and> Table_roll tape_dice (gold_table ''replace'') [2] = Inr (([], [''1d2 -> **2**'']), [])"
proof -
  let ?r = "nl @ ''a'' @ nl @ ''c'' @ nl @ ''b''"
  note a = C8_result_lines [where ev = tape_dice and t = overlap_table and s = "[2]"
      and result = ?r and explanation = "[''1d3 -> **2**'']" and s' = "[]",
      THEN conjunct1, rule_format, OF overlap_table_roll]
  then obtain n s1 es cs where
    es: "tape_dice (Die overlap_table) [2] = Some (n, s1)"
        "Table_find overlap_table (rolled_id (forced_roll overlap_table) n) = Inr es"
    and cs: "length cs = length es" "?r = concat (map (\<lambda>c. nl @ c) cs)"
    by blast
  from es(1) have "n = 2" by (simp add: tape_dice_def)
  with es(2) overlap_table_find have "length es = 3" by (simp add: overlap_table_def)
  with cs have one: "\<exists>cs. ?r = concat (map (\<lambda>c. nl @ c) cs) \<and> length cs = 3" by auto
  have die: "tape_dice (Die (gold_table ''replace'')) [2] = Some (2, [])"
    by (simp add: tape_dice_def)
  have none: "Table_find (gold_table ''replace'') (rolled_id (forced_roll (gold_table ''replace'')) 2) = Inr []"
    by (simp add: gold_table_def ev_simps)
  note b = C8_result_lines [where ev = tape_dice and t = "gold_table ''replace''" and s = "[2]"
      and n = 2 and ?s1.0 = "[]", THEN conjunct2, rule_format, OF conjI [OF die none]]
  from overlap_table_roll one die none b gold_table_roll(2) show ?thesis by simp
qed

text \<open>
  C8 as the specification words it fails: the gold table with a roll of 1 finds one entry
  whose text is \<open>Gold: 20gp\<close>. The texts joined by newline are that text; the result of
  the roll is a newline followed by it.
\<close>

theorem C8_leading_newline_counterexample:
  "Table_find (gold_table ''replace'') (JInt 1) = Inr [TableEntry (Some ''1'') (Some ''Gold: 20gp'') Absent None]
   \<and> entry_texts tape_dice [TableEntry (Some ''1'') (Some ''Gold: 20gp'') Absent None] [] = Inr ([''Gold: 20gp''], [])
   \<and> join nl [''Gold: 20gp''] = ''Gold: 20gp''
   \<and> Table_roll tape_dice (gold_table ''replace'') [1] = Inr ((nl @ ''Gold: 20gp'', [''1d2 -> **1**'']), [])
   \<and> nl @ ''Gold: 20gp'' \<noteq> join nl [''Gold: 20gp'']"
  by (simp add: gold_table_def ev_simps)

section \<open>Properties of the Ids of pages\<close>















end
